theory Spec2Isabelle
  imports Main
begin

section \<open>Data model\<close>

text \<open>
  \<^verbatim>\<open>schema.GroupVersion\<close>: a group name and a version string, compared by value.
\<close>

record GroupVersion =
  Group :: string
  Version :: string

text \<open>
  \<^verbatim>\<open>metav1.GroupVersionForDiscovery\<close>: what the server advertises for one version, the
  string form \<^verbatim>\<open>GroupVersion\<close> ("group/version") and the bare \<^verbatim>\<open>Version\<close>.
\<close>

record GroupVersionForDiscovery =
  dGroupVersion :: string
  dVersion :: string

text \<open>
  \<^verbatim>\<open>metav1.APIGroup\<close>: the name of the group, the versions in the order the server lists
  them, and the preferred version (the zero value, with empty strings, when none is
  declared). \<^verbatim>\<open>metav1.APIGroupList\<close> holds the groups of one discovery answer.
\<close>

record APIGroup =
  Name :: string
  Versions :: "GroupVersionForDiscovery list"
  PreferredVersion :: GroupVersionForDiscovery

record APIGroupList =
  Groups :: "APIGroup list"

text \<open>
  Go errors as values. \<open>ErrCacheEmpty\<close> is \<^verbatim>\<open>cached.ErrCacheEmpty\<close>, the one error the
  code compares by identity; \<open>Err\<close> is any other error of a collaborator, with its
  message. The others are the errors the sources build with \<^verbatim>\<open>fmt.Errorf\<close>:
  \<^item> \<open>NoCustomMetricsAPIRegistered g\<close>: "no custom metrics API (g) registered";
  \<^item> \<open>NoKnownVersions\<close>: "no known available metric versions found";
  \<^item> \<open>NoMetricsAPIGroupRegistered\<close>: "no metrics API group registered";
  \<^item> \<open>ConvertToInternalFailed e\<close>: "failed to convert the given object to the internal
    version: e";
  \<^item> \<open>ConvertToExternalFailed e\<close>: "failed to convert the given object back to the
    external version: e".
\<close>

datatype error =
    ErrCacheEmpty
  | Err string
  | NoCustomMetricsAPIRegistered string
  | NoKnownVersions
  | NoMetricsAPIGroupRegistered
  | ConvertToInternalFailed error
  | ConvertToExternalFailed error

section \<open>Constants of packages outside the sources\<close>

text \<open>
  Modelled from the spec: \<^verbatim>\<open>cmint.GroupName\<close>, the name of the target API group, is
  declared in package \<^verbatim>\<open>k8s.io/metrics/pkg/apis/custom_metrics\<close>, which is not among the
  sources. No theorem below depends on its value.
\<close>

definition GroupName :: string where
  "GroupName = ''custom.metrics.k8s.io''"

text \<open>
  Modelled from the spec: \<^verbatim>\<open>runtime.APIVersionInternal\<close>, the version string of the
  pivot (internal hub) version, is declared in \<^verbatim>\<open>k8s.io/apimachinery/pkg/runtime\<close>, which
  is not among the sources. No theorem below depends on its value.
\<close>

definition APIVersionInternal :: string where
  "APIVersionInternal = ''__internal''"

text \<open>
  Modelled from the spec: \<^verbatim>\<open>schema.GroupVersion.String\<close>, the string form of a
  VersionIdentifier, is declared in \<^verbatim>\<open>k8s.io/apimachinery/pkg/runtime/schema\<close>, which is
  not among the sources: "group/version", or the bare version when the group is empty.
\<close>

definition GroupVersion_String :: "GroupVersion \<Rightarrow> string" where
  "GroupVersion_String gv =
     (if length (Group gv) > 0 then Group gv @ ''/'' @ Version gv else Version gv)"

text \<open>
  Modelled from the spec: the \<^verbatim>\<open>SchemeGroupVersion\<close> of the packages \<^verbatim>\<open>v1beta2\<close>,
  \<^verbatim>\<open>v1beta1\<close> and \<^verbatim>\<open>custom_metrics\<close> (the internal version), none of which is among the
  sources. They only serve as concrete inputs.
\<close>

definition cmv1beta2_SchemeGroupVersion :: GroupVersion where
  "cmv1beta2_SchemeGroupVersion = \<lparr>Group = GroupName, Version = ''v1beta2''\<rparr>"

definition cmv1beta1_SchemeGroupVersion :: GroupVersion where
  "cmv1beta1_SchemeGroupVersion = \<lparr>Group = GroupName, Version = ''v1beta1''\<rparr>"

definition cmint_SchemeGroupVersion :: GroupVersion where
  "cmint_SchemeGroupVersion = \<lparr>Group = GroupName, Version = APIVersionInternal\<rparr>"

section \<open>The known versions\<close>

text \<open>
  \<^verbatim>\<open>MetricVersions\<close> (util.go) is the ordered list of versions the converter accepts.
  \<^verbatim>\<open>init\<close> fills the process-wide map \<^verbatim>\<open>metricVersionsToGV\<close> from it, keyed by the string
  form of each version; a later entry overwrites an earlier one with the same key.
  \<open>init_metricVersionsToGV\<close> is that loop over any list of versions.
\<close>

definition MetricVersions :: "GroupVersion list" where
  "MetricVersions =
     [cmv1beta2_SchemeGroupVersion, cmv1beta1_SchemeGroupVersion, cmint_SchemeGroupVersion]"

primrec init_loop ::
  "GroupVersion list \<Rightarrow> (string \<rightharpoonup> GroupVersion) \<Rightarrow> (string \<rightharpoonup> GroupVersion)" where
  "init_loop [] m = m"
| "init_loop (ver # vers) m = init_loop vers (m(GroupVersion_String ver \<mapsto> ver))"

definition init_metricVersionsToGV :: "GroupVersion list \<Rightarrow> (string \<rightharpoonup> GroupVersion)" where
  "init_metricVersionsToGV vers = init_loop vers Map.empty"

definition metricVersionsToGV :: "string \<rightharpoonup> GroupVersion" where
  "metricVersionsToGV = init_metricVersionsToGV MetricVersions"

section \<open>Negotiation\<close>

text \<open>
  The loop of \<^verbatim>\<open>chooseVersion\<close> and of \<^verbatim>\<open>negotiatePreferredVersion\<close>: scan the advertised
  versions in order and stop at the first whose string form is a key of the map. The
  result is the pointer \<^verbatim>\<open>preferredVersion\<close>, \<open>None\<close> for \<^verbatim>\<open>nil\<close>.
\<close>

primrec scanVersions ::
  "(string \<rightharpoonup> GroupVersion) \<Rightarrow> GroupVersionForDiscovery list \<Rightarrow> GroupVersion option" where
  "scanVersions m [] = None"
| "scanVersions m (version # rest) =
     (case m (dGroupVersion version) of
        Some gv \<Rightarrow> Some gv
      | None \<Rightarrow> scanVersions m rest)"

text \<open>
  \<^verbatim>\<open>(d *apiVersionsFromDiscovery) chooseVersion\<close>. The map \<^verbatim>\<open>metricVersionsToGV\<close> is a
  parameter, so that the function can be run for any set of known versions.
\<close>

definition chooseVersion :: "(string \<rightharpoonup> GroupVersion) \<Rightarrow> APIGroup \<Rightarrow> error + GroupVersion" where
  "chooseVersion m apiGroup =
     (let preferredVersion =
        (case m (dGroupVersion (PreferredVersion apiGroup)) of
           Some gv \<Rightarrow>
             if length (dGroupVersion (PreferredVersion apiGroup)) \<noteq> 0 then Some gv
             else scanVersions m (Versions apiGroup)
         | None \<Rightarrow> scanVersions m (Versions apiGroup))
      in case preferredVersion of
           None \<Rightarrow> Inl NoKnownVersions
         | Some gv \<Rightarrow> Inr gv)"

text \<open>
  \<^verbatim>\<open>(c *MetricConverter) negotiatePreferredVersion\<close> (util.go). It returns a pointer and an
  error; the pointer is \<^verbatim>\<open>nil\<close> exactly when the error is not, so the pair is a sum.
\<close>

definition negotiatePreferredVersion ::
  "(string \<rightharpoonup> GroupVersion) \<Rightarrow> APIGroup \<Rightarrow> error + GroupVersion" where
  "negotiatePreferredVersion m apiGroup =
     (let gv = m (dGroupVersion (PreferredVersion apiGroup));
          present = (gv \<noteq> None);
          preferredVersion =
            (if present \<and> length (dGroupVersion (PreferredVersion apiGroup)) \<noteq> 0 then gv
             else scanVersions m (Versions apiGroup))
      in if preferredVersion = None then Inl NoKnownVersions
         else Inr (the preferredVersion))"

text \<open>
  \<^verbatim>\<open>makeAPIGroup\<close> of the converter's test: a group of the metrics API with the given
  versions and, unless \<open>prefVer\<close> is empty, the given preferred version.
\<close>

definition mkDiscoveryVersion :: "string \<Rightarrow> GroupVersionForDiscovery" where
  "mkDiscoveryVersion ver =
     \<lparr>dGroupVersion = GroupVersion_String \<lparr>Group = Group cmint_SchemeGroupVersion, Version = ver\<rparr>,
      dVersion = ver\<rparr>"

definition makeAPIGroup :: "string \<Rightarrow> string list \<Rightarrow> APIGroup" where
  "makeAPIGroup prefVer versions =
     \<lparr>Name = Group cmint_SchemeGroupVersion,
      Versions = map mkDiscoveryVersion versions,
      PreferredVersion =
        (if prefVer \<noteq> [] then mkDiscoveryVersion prefVer
         else \<lparr>dGroupVersion = [], dVersion = []\<rparr>)\<rparr>"

section \<open>The discovery collaborator\<close>

text \<open>
  Modelled from the spec: the discovery collaborator (\<^verbatim>\<open>discovery.DiscoveryInterface\<close> and
  \<^verbatim>\<open>discovery.CachedDiscoveryInterface\<close> of client-go, which is not among the sources):
  a synchronous call that returns the groups the service advertises at the moment or an
  error, and an invalidate signal for the collaborator's own cache. It is a fake that
  counts its calls: \<open>answers c i n\<close> is what \<^verbatim>\<open>ServerGroups\<close> returns when \<open>i\<close>
  invalidate signals and \<open>n\<close> calls of \<^verbatim>\<open>ServerGroups\<close> came before, so the service may
  answer differently over time and after an invalidation.
\<close>

record DiscoveryClient =
  answers :: "nat \<Rightarrow> nat \<Rightarrow> error + APIGroupList"
  invalidateCalls :: nat
  serverGroupsCalls :: nat

definition ServerGroups :: "DiscoveryClient \<Rightarrow> (error + APIGroupList) \<times> DiscoveryClient" where
  "ServerGroups c =
     (answers c (invalidateCalls c) (serverGroupsCalls c),
      c\<lparr>serverGroupsCalls := Suc (serverGroupsCalls c)\<rparr>)"

definition CachedDiscovery_Invalidate :: "DiscoveryClient \<Rightarrow> DiscoveryClient" where
  "CachedDiscovery_Invalidate c = c\<lparr>invalidateCalls := Suc (invalidateCalls c)\<rparr>"

section \<open>The version source with its cache\<close>

text \<open>
  The loop of \<^verbatim>\<open>fetchVersions\<close> and of \<^verbatim>\<open>maybeFetchVersions\<close>: the first group named
  \<^verbatim>\<open>cmint.GroupName\<close>, \<open>None\<close> for the \<^verbatim>\<open>nil\<close> pointer.
\<close>

primrec findGroup :: "APIGroup list \<Rightarrow> APIGroup option" where
  "findGroup [] = None"
| "findGroup (grp # rest) =
     (if Name grp = GroupName then Some grp else findGroup rest)"

text \<open>
  \<^verbatim>\<open>apiVersionsFromDiscovery\<close>: the discovery client and the cached preferred version
  (\<open>None\<close> for \<^verbatim>\<open>nil\<close>). The methods run one at a time here, so the lock \<^verbatim>\<open>mu\<close> has no
  field; the second look at the cache that \<^verbatim>\<open>PreferredVersion\<close> takes under the write
  lock is kept as the source has it.
\<close>

record apiVersionsFromDiscovery =
  client :: DiscoveryClient
  prefVersion :: "GroupVersion option"

definition NewAvailableAPIsGetter :: "DiscoveryClient \<Rightarrow> apiVersionsFromDiscovery" where
  "NewAvailableAPIsGetter c = \<lparr>client = c, prefVersion = None\<rparr>"

definition fetchVersions ::
  "apiVersionsFromDiscovery \<Rightarrow> (error + APIGroup) \<times> apiVersionsFromDiscovery" where
  "fetchVersions d =
     (case ServerGroups (client d) of
        (Inl err, c') \<Rightarrow> (Inl err, d\<lparr>client := c'\<rparr>)
      | (Inr groups, c') \<Rightarrow>
          (case findGroup (Groups groups) of
             None \<Rightarrow> (Inl (NoCustomMetricsAPIRegistered GroupName), d\<lparr>client := c'\<rparr>)
           | Some apiGroup \<Rightarrow> (Inr apiGroup, d\<lparr>client := c'\<rparr>)))"

definition apiVersionsFromDiscovery_PreferredVersion ::
  "(string \<rightharpoonup> GroupVersion) \<Rightarrow> apiVersionsFromDiscovery \<Rightarrow>
     (error + GroupVersion) \<times> apiVersionsFromDiscovery" where
  "apiVersionsFromDiscovery_PreferredVersion m d =
     (case prefVersion d of
        Some v \<Rightarrow> (Inr v, d)
      | None \<Rightarrow>
          (case prefVersion d of
             Some v \<Rightarrow> (Inr v, d)
           | None \<Rightarrow>
               (case fetchVersions d of
                  (Inl err, d1) \<Rightarrow> (Inl err, d1)
                | (Inr groupInfo, d1) \<Rightarrow>
                    (case chooseVersion m groupInfo of
                       Inl err \<Rightarrow> (Inl err, d1)
                     | Inr pv \<Rightarrow> (Inr pv, d1\<lparr>prefVersion := Some pv\<rparr>)))))"

definition Invalidate :: "apiVersionsFromDiscovery \<Rightarrow> apiVersionsFromDiscovery" where
  "Invalidate d = d\<lparr>prefVersion := None\<rparr>"

text \<open>
  A sequence of \<open>n\<close> calls of \<^verbatim>\<open>PreferredVersion\<close> with nothing in between: the results
  in order, and the final state.
\<close>

primrec PreferredVersion_calls ::
  "(string \<rightharpoonup> GroupVersion) \<Rightarrow> nat \<Rightarrow> apiVersionsFromDiscovery \<Rightarrow>
     (error + GroupVersion) list \<times> apiVersionsFromDiscovery" where
  "PreferredVersion_calls m 0 d = ([], d)"
| "PreferredVersion_calls m (Suc n) d =
     (case apiVersionsFromDiscovery_PreferredVersion m d of
        (r, d1) \<Rightarrow> (case PreferredVersion_calls m n d1 of (rs, d2) \<Rightarrow> (r # rs, d2)))"

section \<open>The version source over a cached discovery client (util.go)\<close>

text \<open>
  \<^verbatim>\<open>APIVersionsFromDiscovery\<close> embeds the cached discovery client and has no field of its
  own, so its state is the client's. \<^verbatim>\<open>maybeFetchVersions\<close> returns Go's triple (group,
  present, error), \<^verbatim>\<open>Versions\<close> the pair (group, error), with \<open>None\<close> for \<^verbatim>\<open>nil\<close>.
\<close>

definition maybeFetchVersions ::
  "DiscoveryClient \<Rightarrow> (APIGroup option \<times> bool \<times> error option) \<times> DiscoveryClient" where
  "maybeFetchVersions d =
     (case ServerGroups d of
        (Inl err, d') \<Rightarrow> ((None, False, Some err), d')
      | (Inr groups, d') \<Rightarrow>
          (case findGroup (Groups groups) of
             None \<Rightarrow> ((None, False, None), d')
           | Some apiGroup \<Rightarrow> ((Some apiGroup, True, None), d')))"

definition APIVersionsFromDiscovery_Versions ::
  "DiscoveryClient \<Rightarrow> (APIGroup option \<times> error option) \<times> DiscoveryClient" where
  "APIVersionsFromDiscovery_Versions d =
     (case maybeFetchVersions d of
        ((grp, present, err), d1) \<Rightarrow>
          (case (if (err = None \<and> \<not> present) \<or> err = Some ErrCacheEmpty
                 then maybeFetchVersions (CachedDiscovery_Invalidate d1)
                 else ((grp, present, err), d1)) of
             ((grp, present, err), d2) \<Rightarrow>
               (case err of
                  Some e \<Rightarrow> ((None, Some e), d2)
                | None \<Rightarrow>
                    if \<not> present then ((None, Some NoMetricsAPIGroupRegistered), d2)
                    else ((grp, None), d2))))"

section \<open>Conversion through the internal version\<close>

text \<open>
  Modelled from the spec: \<^verbatim>\<open>runtime.Scheme.UnsafeConvertToVersion\<close> (apimachinery, not
  among the sources), the table of conversions to and from the pivot: a function from an
  object and a target version to the converted object or an error. Each request is
  appended to a log of the target versions asked for, so that what the converter asks
  of the scheme can be observed.
\<close>

type_synonym 'o Scheme = "'o \<Rightarrow> GroupVersion \<Rightarrow> error + 'o"

definition Scheme_UnsafeConvertToVersion ::
  "'o Scheme \<Rightarrow> 'o \<Rightarrow> GroupVersion \<Rightarrow> GroupVersion list \<Rightarrow> (error + 'o) \<times> GroupVersion list" where
  "Scheme_UnsafeConvertToVersion s obj gv log = (s obj gv, log @ [gv])"

text \<open>
  \<^verbatim>\<open>(c *MetricConverter) UnsafeConvertToVersionVia\<close>: to the internal version of the
  target's group first, then to the target version.
\<close>

definition UnsafeConvertToVersionVia ::
  "'o Scheme \<Rightarrow> 'o \<Rightarrow> GroupVersion \<Rightarrow> GroupVersion list \<Rightarrow> (error + 'o) \<times> GroupVersion list" where
  "UnsafeConvertToVersionVia s obj externalVersion log =
     (case Scheme_UnsafeConvertToVersion s obj
             \<lparr>Group = Group externalVersion, Version = APIVersionInternal\<rparr> log of
        (Inl err, log1) \<Rightarrow> (Inl (ConvertToInternalFailed err), log1)
      | (Inr objInt, log1) \<Rightarrow>
          (case Scheme_UnsafeConvertToVersion s objInt externalVersion log1 of
             (Inl err, log2) \<Rightarrow> (Inl (ConvertToExternalFailed err), log2)
           | (Inr objExt, log2) \<Rightarrow> (Inr objExt, log2)))"

section \<open>Concrete inputs\<close>

text \<open>
  A wire object is a payload tagged with its version. \<open>retagScheme\<close> is a scheme whose
  conversions all succeed and keep the payload; \<open>truncScheme\<close> is one whose internal
  version keeps only the first four characters of the payload.
\<close>

record WireObject =
  apiVersion :: GroupVersion
  payload :: string

definition retagScheme :: "WireObject Scheme" where
  "retagScheme obj gv = Inr (obj\<lparr>apiVersion := gv\<rparr>)"

definition truncScheme :: "WireObject Scheme" where
  "truncScheme obj gv =
     (if Version gv = APIVersionInternal
      then Inr \<lparr>apiVersion = gv, payload = take 4 (payload obj)\<rparr>
      else Inr (obj\<lparr>apiVersion := gv\<rparr>))"

definition fooObject :: WireObject where
  "fooObject = \<lparr>apiVersion = cmv1beta1_SchemeGroupVersion, payload = ''foo=bar''\<rparr>"

text \<open>
  Discovery answers: the metrics group alone, with preferred version \<open>v1beta1\<close>; a
  listing without the metrics group; and clients that give one answer for ever, that
  fail on the first call only, and that lack the group until the first invalidation.
\<close>

definition metricsGroupList :: APIGroupList where
  "metricsGroupList = \<lparr>Groups = [makeAPIGroup ''v1beta1'' [''v1beta2'', ''v1beta1'']]\<rparr>"

definition otherGroupList :: APIGroupList where
  "otherGroupList = \<lparr>Groups = [\<lparr>Name = ''apps'', Versions = [], PreferredVersion =
      \<lparr>dGroupVersion = [], dVersion = []\<rparr>\<rparr>]\<rparr>"

definition steadyClient :: "(error + APIGroupList) \<Rightarrow> DiscoveryClient" where
  "steadyClient a = \<lparr>answers = (\<lambda>i n. a), invalidateCalls = 0, serverGroupsCalls = 0\<rparr>"

definition flakyClient :: DiscoveryClient where
  "flakyClient =
     \<lparr>answers = (\<lambda>i n. if n = 0 then Inl (Err ''connection refused'') else Inr metricsGroupList),
      invalidateCalls = 0, serverGroupsCalls = 0\<rparr>"

definition staleClient :: DiscoveryClient where
  "staleClient =
     \<lparr>answers = (\<lambda>i n. if i = 0 then Inr otherGroupList else Inr metricsGroupList),
      invalidateCalls = 0, serverGroupsCalls = 0\<rparr>"

text \<open>
  Known-version maps for the scenarios: a client that knows \<open>v1\<close> and \<open>v2\<close> (in that
  order of preference), and one that knows \<open>v2\<close> only.
\<close>

definition knownV1V2 :: "string \<rightharpoonup> GroupVersion" where
  "knownV1V2 = init_metricVersionsToGV
     [\<lparr>Group = GroupName, Version = ''v1''\<rparr>, \<lparr>Group = GroupName, Version = ''v2''\<rparr>]"

definition knownV2 :: "string \<rightharpoonup> GroupVersion" where
  "knownV2 = init_metricVersionsToGV [\<lparr>Group = GroupName, Version = ''v2''\<rparr>]"

section \<open>Negotiation: auxiliary facts\<close>

text \<open>
  The two negotiation functions agree, the map that \<^verbatim>\<open>init\<close> builds holds exactly the
  string forms of the listed versions, and the scan returns the first advertised version
  that is a key of the map.
\<close>

lemma negotiate_eq_choose: "negotiatePreferredVersion m g = chooseVersion m g"
  by (auto simp: negotiatePreferredVersion_def chooseVersion_def Let_def split: option.splits)

lemma init_loop_Some:
  "init_loop vers m k = Some gv \<Longrightarrow>
     (gv \<in> set vers \<and> GroupVersion_String gv = k) \<or> m k = Some gv"
proof (induction vers arbitrary: m)
  case Nil
  then show ?case by simp
next
  case (Cons a vers)
  from Cons.prems have "init_loop vers (m(GroupVersion_String a \<mapsto> a)) k = Some gv" by simp
  from Cons.IH [OF this]
  show ?case by (auto split: if_splits)
qed

lemma init_loop_dom: "dom (init_loop vers m) = dom m \<union> GroupVersion_String ` set vers"
  by (induction vers arbitrary: m) auto

lemma init_metricVersionsToGV_Some:
  "init_metricVersionsToGV vers k = Some gv \<Longrightarrow> gv \<in> set vers \<and> GroupVersion_String gv = k"
  using init_loop_Some [of vers Map.empty k gv] by (simp add: init_metricVersionsToGV_def)

lemma init_metricVersionsToGV_dom:
  "dom (init_metricVersionsToGV vers) = GroupVersion_String ` set vers"
  by (simp add: init_metricVersionsToGV_def init_loop_dom)

lemma scanVersions_None:
  "scanVersions m vs = None \<longleftrightarrow> (\<forall>v \<in> set vs. m (dGroupVersion v) = None)"
  by (induction vs) (auto split: option.splits)

lemma scanVersions_SomeD:
  "scanVersions m vs = Some gv \<Longrightarrow>
     \<exists>pre v post. vs = pre @ v # post \<and> (\<forall>u \<in> set pre. m (dGroupVersion u) = None) \<and>
        m (dGroupVersion v) = Some gv"
proof (induction vs)
  case Nil
  then show ?case by simp
next
  case (Cons a vs)
  show ?case
  proof (cases "m (dGroupVersion a)")
    case None
    with Cons.prems have "scanVersions m vs = Some gv" by simp
    from Cons.IH [OF this] obtain pre v post where
      h: "vs = pre @ v # post" "\<forall>u \<in> set pre. m (dGroupVersion u) = None"
         "m (dGroupVersion v) = Some gv" by blast
    then have "a # vs = (a # pre) @ v # post \<and>
        (\<forall>u \<in> set (a # pre). m (dGroupVersion u) = None) \<and> m (dGroupVersion v) = Some gv"
      using None by simp
    then show ?thesis by blast
  next
    case (Some x)
    with Cons.prems have "x = gv" by simp
    with Some have "a # vs = [] @ a # vs \<and> (\<forall>u \<in> set []. m (dGroupVersion u) = None) \<and>
        m (dGroupVersion a) = Some gv" by simp
    then show ?thesis by blast
  qed
qed

lemma scanVersions_first:
  "(\<forall>u \<in> set pre. m (dGroupVersion u) = None) \<Longrightarrow> m (dGroupVersion v) = Some gv \<Longrightarrow>
     scanVersions m (pre @ v # post) = Some gv"
  by (induction pre) auto

lemma chooseVersion_scan:
  "dGroupVersion (PreferredVersion g) = [] \<or> m (dGroupVersion (PreferredVersion g)) = None \<Longrightarrow>
     chooseVersion m g =
       (case scanVersions m (Versions g) of None \<Rightarrow> Inl NoKnownVersions | Some gv \<Rightarrow> Inr gv)"
  by (auto simp: chooseVersion_def split: option.splits)

section \<open>The cache and the retry: auxiliary facts\<close>

text \<open>
  The group search is \<open>find\<close>; a fetch calls the discovery collaborator once and
  leaves the cache alone; \<^verbatim>\<open>PreferredVersion\<close> answers from a filled cache without
  touching the state, and calls the collaborator once when the cache is empty.
\<close>

lemma findGroup_find: "findGroup gs = find (\<lambda>g. Name g = GroupName) gs"
  by (induction gs) simp_all

lemma fetchVersions_calls:
  "serverGroupsCalls (client (snd (fetchVersions d))) = Suc (serverGroupsCalls (client d))"
  by (simp add: fetchVersions_def ServerGroups_def split: sum.splits option.splits)

lemma fetchVersions_frame:
  "prefVersion (snd (fetchVersions d)) = prefVersion d \<and>
   answers (client (snd (fetchVersions d))) = answers (client d) \<and>
   invalidateCalls (client (snd (fetchVersions d))) = invalidateCalls (client d)"
  by (simp add: fetchVersions_def ServerGroups_def split: sum.splits option.splits)

lemma PreferredVersion_hit:
  "prefVersion d = Some v \<Longrightarrow> apiVersionsFromDiscovery_PreferredVersion m d = (Inr v, d)"
  by (simp add: apiVersionsFromDiscovery_PreferredVersion_def)

lemma PreferredVersion_miss_calls:
  "prefVersion d = None \<Longrightarrow>
     serverGroupsCalls (client (snd (apiVersionsFromDiscovery_PreferredVersion m d)))
       = Suc (serverGroupsCalls (client d))"
  using fetchVersions_calls [of d]
  by (auto simp: apiVersionsFromDiscovery_PreferredVersion_def split: prod.splits sum.splits)

lemma PreferredVersion_Inr:
  "apiVersionsFromDiscovery_PreferredVersion m d = (Inr v, d1) \<Longrightarrow> prefVersion d1 = Some v"
  by (auto simp: apiVersionsFromDiscovery_PreferredVersion_def
      split: option.splits prod.splits sum.splits)

lemma PreferredVersion_Inl:
  "apiVersionsFromDiscovery_PreferredVersion m d = (Inl e, d1) \<Longrightarrow>
     prefVersion d = None \<and> prefVersion d1 = None"
  using fetchVersions_frame [of d]
  by (auto simp: apiVersionsFromDiscovery_PreferredVersion_def
      split: option.splits prod.splits sum.splits)

lemma PreferredVersion_calls_hit:
  "prefVersion d = Some v \<Longrightarrow> PreferredVersion_calls m n d = (replicate n (Inr v), d)"
  by (induction n) (simp_all add: PreferredVersion_hit)

lemma maybeFetchVersions_eq:
  "maybeFetchVersions d =
     ((case answers d (invalidateCalls d) (serverGroupsCalls d) of
         Inl err \<Rightarrow> (None, False, Some err)
       | Inr groups \<Rightarrow>
           (case find (\<lambda>g. Name g = GroupName) (Groups groups) of
              None \<Rightarrow> (None, False, None)
            | Some apiGroup \<Rightarrow> (Some apiGroup, True, None))),
      d\<lparr>serverGroupsCalls := Suc (serverGroupsCalls d)\<rparr>)"
  by (simp add: maybeFetchVersions_def ServerGroups_def findGroup_find
      split: sum.splits option.splits)

section \<open>The negotiation rule\<close>

text \<open>
  Claim C1. When the group's declared preferred version is not empty and is the string
  form of one of the client's known versions, \<^verbatim>\<open>chooseVersion\<close> and
  \<^verbatim>\<open>negotiatePreferredVersion\<close> return the known version with that string form, whatever
  the advertised version list \<open>vs\<close> is (any order, any content).
\<close>

theorem preferred_version_wins:
  assumes "dGroupVersion (PreferredVersion g) \<noteq> []"
    and "dGroupVersion (PreferredVersion g) \<in> GroupVersion_String ` set vers"
  shows "\<exists>gv. chooseVersion (init_metricVersionsToGV vers) (g\<lparr>Versions := vs\<rparr>) = Inr gv \<and>
           negotiatePreferredVersion (init_metricVersionsToGV vers) (g\<lparr>Versions := vs\<rparr>) = Inr gv \<and>
           init_metricVersionsToGV vers (dGroupVersion (PreferredVersion g)) = Some gv \<and>
           gv \<in> set vers \<and> GroupVersion_String gv = dGroupVersion (PreferredVersion g)"
proof -
  from assms(2) obtain gv where
    gv: "init_metricVersionsToGV vers (dGroupVersion (PreferredVersion g)) = Some gv"
    using init_metricVersionsToGV_dom [of vers] by blast
  with assms(1) have "chooseVersion (init_metricVersionsToGV vers) (g\<lparr>Versions := vs\<rparr>) = Inr gv"
    by (simp add: chooseVersion_def)
  with gv show ?thesis
    using init_metricVersionsToGV_Some [OF gv] by (simp add: negotiate_eq_choose)
qed

text \<open>
  The first case of the converter's test ("Use preferred version when set"), with the
  advertised list in both orders.
\<close>

theorem preferred_version_wins_witness:
  "dGroupVersion (PreferredVersion (makeAPIGroup ''v1beta1'' [''v1beta2''])) \<noteq> [] \<and>
   dGroupVersion (PreferredVersion (makeAPIGroup ''v1beta1'' [''v1beta2'']))
     \<in> GroupVersion_String ` set MetricVersions \<and>
   chooseVersion (init_metricVersionsToGV MetricVersions)
     ((makeAPIGroup ''v1beta1'' [''v1beta2''])
        \<lparr>Versions := map mkDiscoveryVersion [''v1beta2'', ''v1beta1'']\<rparr>)
     = Inr cmv1beta1_SchemeGroupVersion \<and>
   chooseVersion (init_metricVersionsToGV MetricVersions)
     ((makeAPIGroup ''v1beta1'' [''v1beta2''])
        \<lparr>Versions := map mkDiscoveryVersion [''v1beta1'', ''v1beta2'']\<rparr>)
     = Inr cmv1beta1_SchemeGroupVersion"
proof -
  let ?g = "makeAPIGroup ''v1beta1'' [''v1beta2'']"
  have h1: "dGroupVersion (PreferredVersion ?g) \<noteq> []"
    by code_simp
  have h2: "dGroupVersion (PreferredVersion ?g) \<in> GroupVersion_String ` set MetricVersions"
    by code_simp
  have k: "init_metricVersionsToGV MetricVersions (dGroupVersion (PreferredVersion ?g))
             = Some cmv1beta1_SchemeGroupVersion"
    by code_simp
  from preferred_version_wins [OF h1 h2, of "map mkDiscoveryVersion [''v1beta2'', ''v1beta1'']"]
    preferred_version_wins [OF h1 h2, of "map mkDiscoveryVersion [''v1beta1'', ''v1beta2'']"]
  show ?thesis using h1 h2 k by auto
qed

text \<open>
  Claim C2. When the group declares no preferred version, or one that is not known, the
  result is the known version of the first advertised entry, in the server's order, that
  is known: every entry before it is unknown. When no advertised entry is known the
  result is the error "no known available metric versions found". Both functions agree.
\<close>

theorem first_known_advertised:
  assumes "dGroupVersion (PreferredVersion g) = [] \<or> m (dGroupVersion (PreferredVersion g)) = None"
  shows "(case chooseVersion m g of
            Inl e \<Rightarrow> e = NoKnownVersions \<and> (\<forall>v \<in> set (Versions g). m (dGroupVersion v) = None)
          | Inr gv \<Rightarrow>
              (\<exists>pre v post. Versions g = pre @ v # post \<and>
                 (\<forall>u \<in> set pre. m (dGroupVersion u) = None) \<and> m (dGroupVersion v) = Some gv)) \<and>
         negotiatePreferredVersion m g = chooseVersion m g"
proof -
  have scan: "chooseVersion m g =
      (case scanVersions m (Versions g) of None \<Rightarrow> Inl NoKnownVersions | Some gv \<Rightarrow> Inr gv)"
    using assms by (rule chooseVersion_scan)
  show ?thesis
  proof (cases "scanVersions m (Versions g)")
    case None
    then show ?thesis
      using scan scanVersions_None [of m "Versions g"]
      by (simp add: negotiate_eq_choose)
  next
    case (Some gv)
    then show ?thesis
      using scan scanVersions_SomeD [OF Some]
      by (simp add: negotiate_eq_choose)
  qed
qed

text \<open>
  The spec's scenario (the server lists \<open>v2\<close> before \<open>v1\<close>, the client prefers \<open>v1\<close>:
  the server's order wins), and a group that advertises an unknown version only.
\<close>

theorem first_known_advertised_witness:
  "dGroupVersion (PreferredVersion (makeAPIGroup [] [''v2'', ''v1''])) = [] \<and>
   chooseVersion knownV1V2 (makeAPIGroup [] [''v2'', ''v1''])
     = Inr \<lparr>Group = GroupName, Version = ''v2''\<rparr> \<and>
   negotiatePreferredVersion knownV1V2 (makeAPIGroup [] [''v2'', ''v1''])
     = Inr \<lparr>Group = GroupName, Version = ''v2''\<rparr> \<and>
   (\<exists>pre v post. Versions (makeAPIGroup [] [''v2'', ''v1'']) = pre @ v # post \<and>
      (\<forall>u \<in> set pre. knownV1V2 (dGroupVersion u) = None) \<and>
      knownV1V2 (dGroupVersion v) = Some \<lparr>Group = GroupName, Version = ''v2''\<rparr>) \<and>
   dGroupVersion (PreferredVersion (makeAPIGroup [] [''v3''])) = [] \<and>
   chooseVersion knownV1V2 (makeAPIGroup [] [''v3'']) = Inl NoKnownVersions \<and>
   negotiatePreferredVersion knownV1V2 (makeAPIGroup [] [''v3'']) = Inl NoKnownVersions"
proof -
  let ?g = "makeAPIGroup [] [''v2'', ''v1'']"
  let ?h = "makeAPIGroup [] [''v3'']"
  have g: "dGroupVersion (PreferredVersion ?g) = []" by code_simp
  have h: "dGroupVersion (PreferredVersion ?h) = []" by code_simp
  have cg: "chooseVersion knownV1V2 ?g = Inr \<lparr>Group = GroupName, Version = ''v2''\<rparr>"
    by code_simp
  have ch: "chooseVersion knownV1V2 ?h = Inl NoKnownVersions"
    by code_simp
  from g have g': "dGroupVersion (PreferredVersion ?g) = [] \<or>
      knownV1V2 (dGroupVersion (PreferredVersion ?g)) = None" by simp
  from h have h': "dGroupVersion (PreferredVersion ?h) = [] \<or>
      knownV1V2 (dGroupVersion (PreferredVersion ?h)) = None" by simp
  from first_known_advertised [where m = knownV1V2 and g = "?g", OF g']
    first_known_advertised [where m = knownV1V2 and g = "?h", OF h']
  show ?thesis using g h cg ch by simp
qed

text \<open>
  Claim C4 as stated fails: with declared preference \<open>v1\<close>, advertised versions
  \<open>v1\<close>, \<open>v2\<close> and a client that knows \<open>v2\<close> only, the negotiation does not fail; it
  falls back to the scan of the advertised list and returns \<open>v2\<close>.
\<close>

theorem declared_unknown_fails_counterexample:
  "chooseVersion knownV2 (makeAPIGroup ''v1'' [''v1'', ''v2''])
     = Inr \<lparr>Group = GroupName, Version = ''v2''\<rparr> \<and>
   chooseVersion knownV2 (makeAPIGroup ''v1'' [''v1'', ''v2'']) \<noteq> Inl NoKnownVersions \<and>
   negotiatePreferredVersion knownV2 (makeAPIGroup ''v1'' [''v1'', ''v2''])
     \<noteq> Inl NoKnownVersions"
  by code_simp

text \<open>
  Claim C4, amended. For a group that declares a preferred version the client does not
  know and advertises that version and then a second one the client knows, the
  negotiation returns the known second version.
\<close>

theorem declared_unknown_falls_back:
  assumes "m (dGroupVersion (PreferredVersion g)) = None"
    and "Versions g = [v1, v2]"
    and "dGroupVersion v1 = dGroupVersion (PreferredVersion g)"
    and "m (dGroupVersion v2) = Some gv"
  shows "chooseVersion m g = Inr gv \<and> negotiatePreferredVersion m g = Inr gv"
  using assms by (simp add: chooseVersion_def negotiate_eq_choose)

theorem declared_unknown_falls_back_witness:
  "knownV2 (dGroupVersion (PreferredVersion (makeAPIGroup ''v1'' [''v1'', ''v2'']))) = None \<and>
   Versions (makeAPIGroup ''v1'' [''v1'', ''v2''])
     = [mkDiscoveryVersion ''v1'', mkDiscoveryVersion ''v2''] \<and>
   dGroupVersion (mkDiscoveryVersion ''v1'')
     = dGroupVersion (PreferredVersion (makeAPIGroup ''v1'' [''v1'', ''v2''])) \<and>
   knownV2 (dGroupVersion (mkDiscoveryVersion ''v2''))
     = Some \<lparr>Group = GroupName, Version = ''v2''\<rparr> \<and>
   negotiatePreferredVersion knownV2 (makeAPIGroup ''v1'' [''v1'', ''v2''])
     = Inr \<lparr>Group = GroupName, Version = ''v2''\<rparr>"
proof -
  let ?g = "makeAPIGroup ''v1'' [''v1'', ''v2'']"
  have a: "knownV2 (dGroupVersion (PreferredVersion ?g)) = None" by code_simp
  have b: "Versions ?g = [mkDiscoveryVersion ''v1'', mkDiscoveryVersion ''v2'']"
    by (simp add: makeAPIGroup_def)
  have c: "dGroupVersion (mkDiscoveryVersion ''v1'') = dGroupVersion (PreferredVersion ?g)"
    by (simp add: makeAPIGroup_def)
  have d: "knownV2 (dGroupVersion (mkDiscoveryVersion ''v2''))
             = Some \<lparr>Group = GroupName, Version = ''v2''\<rparr>" by code_simp
  from declared_unknown_falls_back [OF a b c d]
  show ?thesis using a b c d by simp
qed

text \<open>
  Claim C9. \<^verbatim>\<open>negotiatePreferredVersion\<close> of the converter and \<^verbatim>\<open>chooseVersion\<close> of the
  version source compute the same result, the same version or both the error, for every
  group and every map of known versions.
\<close>

theorem negotiation_rules_agree:
  "negotiatePreferredVersion m apiGroup = chooseVersion m apiGroup"
  by (cases "m (dGroupVersion (PreferredVersion apiGroup))";
      cases "scanVersions m (Versions apiGroup)")
     (simp_all add: negotiatePreferredVersion_def chooseVersion_def)

section \<open>Conversion through the hub\<close>

text \<open>
  Claim C3 as stated fails: converting an object to the version it already has still asks
  the scheme for the internal version first (the log is not empty), and with a scheme
  whose internal version loses data the object comes back changed.
\<close>

theorem same_version_skips_pivot_counterexample:
  "UnsafeConvertToVersionVia retagScheme fooObject (apiVersion fooObject) []
     \<noteq> (Inr fooObject, []) \<and>
   snd (UnsafeConvertToVersionVia retagScheme fooObject (apiVersion fooObject) [])
     = [cmint_SchemeGroupVersion, cmv1beta1_SchemeGroupVersion] \<and>
   fst (UnsafeConvertToVersionVia truncScheme fooObject (apiVersion fooObject) [])
     \<noteq> Inr fooObject"
  by code_simp

text \<open>
  Claim C3, amended. For every object and every target version,
  \<^verbatim>\<open>UnsafeConvertToVersionVia\<close> first asks the scheme for the internal version of the
  target's group, also when the object is already at the target version; it returns the
  object unchanged exactly when that conversion succeeds and converting its result to the
  target version gives the object back.
\<close>

theorem via_always_through_internal:
  "(\<exists>rest. snd (UnsafeConvertToVersionVia s obj X log)
      = log @ \<lparr>Group = Group X, Version = APIVersionInternal\<rparr> # rest) \<and>
   (fst (UnsafeConvertToVersionVia s obj X log) = Inr obj \<longleftrightarrow>
      (\<exists>objInt. s obj \<lparr>Group = Group X, Version = APIVersionInternal\<rparr> = Inr objInt \<and>
         s objInt X = Inr obj))"
proof (cases "s obj \<lparr>Group = Group X, Version = APIVersionInternal\<rparr>")
  case (Inl e)
  then show ?thesis
    by (simp add: UnsafeConvertToVersionVia_def Scheme_UnsafeConvertToVersion_def)
next
  case (Inr objInt)
  then show ?thesis
    by (cases "s objInt X")
       (simp_all add: UnsafeConvertToVersionVia_def Scheme_UnsafeConvertToVersion_def)
qed

text \<open>
  Claim C5. When the conversion of the value to the internal version of the target's
  group succeeds, and the conversion of that intermediate object to the target version
  \<open>B\<close> succeeds, \<^verbatim>\<open>UnsafeConvertToVersionVia\<close> returns the result of the second, having
  asked the scheme for exactly these two conversions in this order.
\<close>

theorem via_composes_hub:
  assumes "s obj \<lparr>Group = Group B, Version = APIVersionInternal\<rparr> = Inr objInt"
    and "s objInt B = Inr objExt"
  shows "UnsafeConvertToVersionVia s obj B log
           = (Inr objExt, log @ [\<lparr>Group = Group B, Version = APIVersionInternal\<rparr>, B])"
  using assms by (simp add: UnsafeConvertToVersionVia_def Scheme_UnsafeConvertToVersion_def)

theorem via_composes_hub_witness:
  "truncScheme fooObject
      \<lparr>Group = Group cmv1beta2_SchemeGroupVersion, Version = APIVersionInternal\<rparr>
     = Inr \<lparr>apiVersion = cmint_SchemeGroupVersion, payload = ''foo=''\<rparr> \<and>
   truncScheme \<lparr>apiVersion = cmint_SchemeGroupVersion, payload = ''foo=''\<rparr>
      cmv1beta2_SchemeGroupVersion
     = Inr \<lparr>apiVersion = cmv1beta2_SchemeGroupVersion, payload = ''foo=''\<rparr> \<and>
   UnsafeConvertToVersionVia truncScheme fooObject cmv1beta2_SchemeGroupVersion []
     = (Inr \<lparr>apiVersion = cmv1beta2_SchemeGroupVersion, payload = ''foo=''\<rparr>,
        [\<lparr>Group = Group cmv1beta2_SchemeGroupVersion, Version = APIVersionInternal\<rparr>,
         cmv1beta2_SchemeGroupVersion])"
proof -
  have a: "truncScheme fooObject
      \<lparr>Group = Group cmv1beta2_SchemeGroupVersion, Version = APIVersionInternal\<rparr>
     = Inr \<lparr>apiVersion = cmint_SchemeGroupVersion, payload = ''foo=''\<rparr>"
    by code_simp
  have b: "truncScheme \<lparr>apiVersion = cmint_SchemeGroupVersion, payload = ''foo=''\<rparr>
      cmv1beta2_SchemeGroupVersion
     = Inr \<lparr>apiVersion = cmv1beta2_SchemeGroupVersion, payload = ''foo=''\<rparr>"
    by code_simp
  from via_composes_hub [OF a b, of "[]"] show ?thesis using a b by simp
qed

section \<open>The cached preferred version\<close>

text \<open>
  Claim C6 as stated fails: a call that fails caches nothing, so in a sequence whose first
  call fails and whose second succeeds the discovery collaborator is invoked twice.
\<close>

theorem discovery_once_per_sequence_counterexample:
  "fst (PreferredVersion_calls metricVersionsToGV 2 (NewAvailableAPIsGetter flakyClient))
     = [Inl (Err ''connection refused''), Inr cmv1beta1_SchemeGroupVersion] \<and>
   serverGroupsCalls (client (snd
       (PreferredVersion_calls metricVersionsToGV 2 (NewAvailableAPIsGetter flakyClient)))) = 2"
  by code_simp

text \<open>
  Claim C6, amended. In a sequence of \<^verbatim>\<open>PreferredVersion\<close> calls with no invalidation in
  between, whose results are some failures \<open>errs\<close>, then a first success \<open>v\<close>, then
  \<open>rest\<close>: every later call returns the same \<open>v\<close>, which is the cached value at the end,
  and the discovery collaborator is invoked once by each failed call, once by the first
  successful call when the cache was empty before the sequence, and never after it.
\<close>

theorem preferredVersion_cached_after_success:
  assumes "fst (PreferredVersion_calls m n d) = map Inl errs @ Inr v # rest"
  shows "rest = replicate (length rest) (Inr v) \<and>
         prefVersion (snd (PreferredVersion_calls m n d)) = Some v \<and>
         serverGroupsCalls (client (snd (PreferredVersion_calls m n d)))
           = serverGroupsCalls (client d) + length errs +
               (case prefVersion d of None \<Rightarrow> 1 | Some u \<Rightarrow> 0)"
  using assms
proof (induction errs arbitrary: n d)
  case Nil
  then obtain k where n: "n = Suc k" by (cases n) auto
  obtain r d1 where pv: "apiVersionsFromDiscovery_PreferredVersion m d = (r, d1)"
    by (cases "apiVersionsFromDiscovery_PreferredVersion m d")
  obtain rs d2 where run: "PreferredVersion_calls m k d1 = (rs, d2)"
    by (cases "PreferredVersion_calls m k d1")
  from Nil n pv run have r: "r = Inr v" and rs: "rs = rest" by simp_all
  from pv r have c1: "prefVersion d1 = Some v" by (simp add: PreferredVersion_Inr)
  from PreferredVersion_calls_hit [OF c1, of m k] run
  have rs': "rs = replicate k (Inr v)" and d2: "d2 = d1" by simp_all
  have count: "serverGroupsCalls (client d1)
      = serverGroupsCalls (client d) + (case prefVersion d of None \<Rightarrow> 1 | Some u \<Rightarrow> 0)"
  proof (cases "prefVersion d")
    case None
    from PreferredVersion_miss_calls [OF None, of m] pv show ?thesis using None by simp
  next
    case (Some u)
    from PreferredVersion_hit [OF Some, of m] pv show ?thesis using Some by simp
  qed
  from rs rs' have "rest = replicate k (Inr v)" by simp
  then have "rest = replicate (length rest) (Inr v)" by (metis length_replicate)
  with n pv run d2 c1 count show ?case by simp
next
  case (Cons e errs)
  then obtain k where n: "n = Suc k" by (cases n) auto
  obtain r d1 where pv: "apiVersionsFromDiscovery_PreferredVersion m d = (r, d1)"
    by (cases "apiVersionsFromDiscovery_PreferredVersion m d")
  obtain rs d2 where run: "PreferredVersion_calls m k d1 = (rs, d2)"
    by (cases "PreferredVersion_calls m k d1")
  from Cons.prems n pv run have r: "r = Inl e" and rs: "rs = map Inl errs @ Inr v # rest"
    by simp_all
  from pv r have pv': "apiVersionsFromDiscovery_PreferredVersion m d = (Inl e, d1)" by simp
  from PreferredVersion_Inl [OF pv']
  have c0: "prefVersion d = None" and c1: "prefVersion d1 = None" by simp_all
  from PreferredVersion_miss_calls [OF c0, of m] pv
  have count: "serverGroupsCalls (client d1) = Suc (serverGroupsCalls (client d))" by simp
  from run rs have "fst (PreferredVersion_calls m k d1) = map Inl errs @ Inr v # rest" by simp
  from Cons.IH [OF this] run c1 count c0 n pv show ?case by simp
qed

theorem preferredVersion_cached_after_success_witness:
  "fst (PreferredVersion_calls metricVersionsToGV 3 (NewAvailableAPIsGetter flakyClient))
     = map Inl [Err ''connection refused''] @ Inr cmv1beta1_SchemeGroupVersion
         # [Inr cmv1beta1_SchemeGroupVersion] \<and>
   serverGroupsCalls (client (snd
       (PreferredVersion_calls metricVersionsToGV 3 (NewAvailableAPIsGetter flakyClient)))) = 2 \<and>
   prefVersion (snd
       (PreferredVersion_calls metricVersionsToGV 3 (NewAvailableAPIsGetter flakyClient)))
     = Some cmv1beta1_SchemeGroupVersion"
proof -
  have a: "fst (PreferredVersion_calls metricVersionsToGV 3 (NewAvailableAPIsGetter flakyClient))
     = map Inl [Err ''connection refused''] @ Inr cmv1beta1_SchemeGroupVersion
         # [Inr cmv1beta1_SchemeGroupVersion]"
    by code_simp
  have b: "serverGroupsCalls (client (NewAvailableAPIsGetter flakyClient)) = 0"
    by code_simp
  have c: "prefVersion (NewAvailableAPIsGetter flakyClient) = None"
    by code_simp
  from preferredVersion_cached_after_success [OF a] show ?thesis using a b c by simp
qed

text \<open>
  Claim C7. In every state of the cache, \<^verbatim>\<open>Invalidate\<close> clears the cached version and
  touches nothing else, a second \<^verbatim>\<open>Invalidate\<close> changes nothing more, and the next
  \<^verbatim>\<open>PreferredVersion\<close> invokes the discovery collaborator, exactly once.
\<close>

theorem invalidate_forces_refetch:
  "prefVersion (Invalidate d) = None \<and>
   client (Invalidate d) = client d \<and>
   Invalidate (Invalidate d) = Invalidate d \<and>
   serverGroupsCalls (client (snd (apiVersionsFromDiscovery_PreferredVersion m (Invalidate d))))
     = Suc (serverGroupsCalls (client d))"
proof -
  have c: "prefVersion (Invalidate d) = None" by (simp add: Invalidate_def)
  from PreferredVersion_miss_calls [OF c, of m] show ?thesis by (simp add: Invalidate_def)
qed

text \<open>
  Claim C8. When \<^verbatim>\<open>PreferredVersion\<close> returns an error, the cache is as it was before,
  empty, the call has invoked discovery once and the next call invokes it again. The
  error is the discovery collaborator's own, or "no custom metrics API registered" when
  the answer holds no group of that name, or "no known available metric versions found"
  when the negotiation on the group found fails.
\<close>

theorem preferredVersion_error_not_cached:
  assumes "apiVersionsFromDiscovery_PreferredVersion m d = (Inl e, d1)"
  shows "prefVersion d1 = prefVersion d \<and> prefVersion d1 = None \<and>
         serverGroupsCalls (client d1) = Suc (serverGroupsCalls (client d)) \<and>
         serverGroupsCalls (client (snd (apiVersionsFromDiscovery_PreferredVersion m d1)))
           = Suc (serverGroupsCalls (client d1)) \<and>
         (answers (client d) (invalidateCalls (client d)) (serverGroupsCalls (client d)) = Inl e \<or>
          (\<exists>groups. answers (client d) (invalidateCalls (client d)) (serverGroupsCalls (client d))
               = Inr groups \<and>
             ((GroupName \<notin> Name ` set (Groups groups) \<and> e = NoCustomMetricsAPIRegistered GroupName) \<or>
              (\<exists>apiGroup. find (\<lambda>g. Name g = GroupName) (Groups groups) = Some apiGroup \<and>
                 chooseVersion m apiGroup = Inl e \<and> e = NoKnownVersions))))"
proof -
  from PreferredVersion_Inl [OF assms]
  have c0: "prefVersion d = None" and c1: "prefVersion d1 = None" by simp_all
  from PreferredVersion_miss_calls [OF c0, of m] assms
  have n1: "serverGroupsCalls (client d1) = Suc (serverGroupsCalls (client d))" by simp
  note n2 = PreferredVersion_miss_calls [OF c1, of m]
  have cause: "answers (client d) (invalidateCalls (client d)) (serverGroupsCalls (client d)) = Inl e \<or>
          (\<exists>groups. answers (client d) (invalidateCalls (client d)) (serverGroupsCalls (client d))
               = Inr groups \<and>
             ((GroupName \<notin> Name ` set (Groups groups) \<and> e = NoCustomMetricsAPIRegistered GroupName) \<or>
              (\<exists>apiGroup. find (\<lambda>g. Name g = GroupName) (Groups groups) = Some apiGroup \<and>
                 chooseVersion m apiGroup = Inl e \<and> e = NoKnownVersions)))"
    using assms c0
    by (auto simp: apiVersionsFromDiscovery_PreferredVersion_def fetchVersions_def ServerGroups_def
        findGroup_find find_None_iff chooseVersion_def Let_def
        split: sum.splits option.splits if_splits)
  from c0 c1 n1 n2 cause show ?thesis by simp
qed

text \<open>
  The spec's scenario: discovery answers with a listing that lacks the metrics group.
\<close>

theorem preferredVersion_error_not_cached_witness:
  "apiVersionsFromDiscovery_PreferredVersion metricVersionsToGV
      (NewAvailableAPIsGetter (steadyClient (Inr otherGroupList)))
     = (Inl (NoCustomMetricsAPIRegistered GroupName),
        \<lparr>client = (steadyClient (Inr otherGroupList))\<lparr>serverGroupsCalls := 1\<rparr>,
         prefVersion = None\<rparr>) \<and>
   serverGroupsCalls (client (snd (apiVersionsFromDiscovery_PreferredVersion metricVersionsToGV
      \<lparr>client = (steadyClient (Inr otherGroupList))\<lparr>serverGroupsCalls := 1\<rparr>,
       prefVersion = None\<rparr>))) = 2"
proof -
  have a: "apiVersionsFromDiscovery_PreferredVersion metricVersionsToGV
      (NewAvailableAPIsGetter (steadyClient (Inr otherGroupList)))
     = (Inl (NoCustomMetricsAPIRegistered GroupName),
        \<lparr>client = (steadyClient (Inr otherGroupList))\<lparr>serverGroupsCalls := 1\<rparr>,
         prefVersion = None\<rparr>)"
    by (simp add: apiVersionsFromDiscovery_PreferredVersion_def NewAvailableAPIsGetter_def
        fetchVersions_def ServerGroups_def steadyClient_def otherGroupList_def GroupName_def)
  from preferredVersion_error_not_cached [OF a] show ?thesis using a by simp
qed

section \<open>The retry over the cached discovery client\<close>

text \<open>
  Claim C10. Let \<open>a0\<close> be the answer of the first \<^verbatim>\<open>ServerGroups\<close> call of
  \<^verbatim>\<open>Versions\<close>. It is a miss when it is the empty-cache error or a listing without the
  metrics group. On a miss \<^verbatim>\<open>Versions\<close> invalidates the cached discovery exactly once and
  fetches exactly once more; the second answer \<open>a1\<close> decides: its error is returned as it
  is, with no further retry, a listing still without the group gives "no metrics API
  group registered", and otherwise the group is returned. Without a miss there is no
  invalidation and no second fetch: a fetch error is returned as it is, a group as found.
\<close>

theorem versions_retries_once:
  assumes "APIVersionsFromDiscovery_Versions d = (r, d')"
    and "a0 = answers d (invalidateCalls d) (serverGroupsCalls d)"
    and "a1 = answers d (Suc (invalidateCalls d)) (Suc (serverGroupsCalls d))"
    and "miss \<longleftrightarrow> a0 = Inl ErrCacheEmpty \<or>
           (\<exists>groups. a0 = Inr groups \<and> GroupName \<notin> Name ` set (Groups groups))"
  shows "answers d' = answers d \<and>
         (if miss
          then invalidateCalls d' = Suc (invalidateCalls d) \<and>
               serverGroupsCalls d' = Suc (Suc (serverGroupsCalls d)) \<and>
               r = (case a1 of
                      Inl e \<Rightarrow> (None, Some e)
                    | Inr groups \<Rightarrow>
                        (case find (\<lambda>g. Name g = GroupName) (Groups groups) of
                           None \<Rightarrow> (None, Some NoMetricsAPIGroupRegistered)
                         | Some apiGroup \<Rightarrow> (Some apiGroup, None)))
          else invalidateCalls d' = invalidateCalls d \<and>
               serverGroupsCalls d' = Suc (serverGroupsCalls d) \<and>
               r = (case a0 of
                      Inl e \<Rightarrow> (None, Some e)
                    | Inr groups \<Rightarrow> (find (\<lambda>g. Name g = GroupName) (Groups groups), None)))"
proof (cases a0)
  case (Inl e)
  show ?thesis
  proof (cases "e = ErrCacheEmpty")
    case True
    with Inl assms(4) have m: miss by simp
    from assms(1) Inl True assms(2,3) m show ?thesis
      by (auto simp: APIVersionsFromDiscovery_Versions_def maybeFetchVersions_eq
          CachedDiscovery_Invalidate_def split: sum.splits option.splits)
  next
    case False
    with Inl assms(4) have m: "\<not> miss" by simp
    from assms(1) Inl False assms(2,3) m show ?thesis
      by (auto simp: APIVersionsFromDiscovery_Versions_def maybeFetchVersions_eq
          CachedDiscovery_Invalidate_def split: sum.splits option.splits)
  qed
next
  case (Inr groups)
  show ?thesis
  proof (cases "find (\<lambda>g. Name g = GroupName) (Groups groups)")
    case None
    then have "GroupName \<notin> Name ` set (Groups groups)" by (auto simp: find_None_iff)
    with Inr assms(4) have m: miss by simp
    from assms(1) Inr None assms(2,3) m show ?thesis
      by (auto simp: APIVersionsFromDiscovery_Versions_def maybeFetchVersions_eq
          CachedDiscovery_Invalidate_def split: sum.splits option.splits)
  next
    case (Some g)
    then have "GroupName \<in> Name ` set (Groups groups)"
      by (auto simp: find_Some_iff image_iff) (metis nth_mem)
    with Inr assms(4) have m: "\<not> miss" by simp
    from assms(1) Inr Some assms(2,3) m show ?thesis
      by (auto simp: APIVersionsFromDiscovery_Versions_def maybeFetchVersions_eq
          CachedDiscovery_Invalidate_def split: sum.splits option.splits)
  qed
qed

text \<open>
  A client whose cached listing lacks the group until it is invalidated, one whose
  listing never has the group, and one whose fetch fails.
\<close>

theorem versions_retries_once_witness:
  "fst (APIVersionsFromDiscovery_Versions staleClient)
     = (Some (makeAPIGroup ''v1beta1'' [''v1beta2'', ''v1beta1'']), None) \<and>
   invalidateCalls (snd (APIVersionsFromDiscovery_Versions staleClient)) = 1 \<and>
   serverGroupsCalls (snd (APIVersionsFromDiscovery_Versions staleClient)) = 2 \<and>
   fst (APIVersionsFromDiscovery_Versions (steadyClient (Inr otherGroupList)))
     = (None, Some NoMetricsAPIGroupRegistered) \<and>
   invalidateCalls (snd (APIVersionsFromDiscovery_Versions (steadyClient (Inr otherGroupList)))) = 1 \<and>
   serverGroupsCalls (snd (APIVersionsFromDiscovery_Versions (steadyClient (Inr otherGroupList)))) = 2 \<and>
   fst (APIVersionsFromDiscovery_Versions (steadyClient (Inl (Err ''connection refused''))))
     = (None, Some (Err ''connection refused'')) \<and>
   invalidateCalls (snd (APIVersionsFromDiscovery_Versions
       (steadyClient (Inl (Err ''connection refused''))))) = 0 \<and>
   serverGroupsCalls (snd (APIVersionsFromDiscovery_Versions
       (steadyClient (Inl (Err ''connection refused''))))) = 1"
proof -
  let ?stale = staleClient
  let ?absent = "steadyClient (Inr otherGroupList)"
  let ?down = "steadyClient (Inl (Err ''connection refused''))"
  have absent: "GroupName \<notin> Name ` set (Groups otherGroupList)"
    by (simp add: otherGroupList_def GroupName_def)
  have found: "find (\<lambda>g. Name g = GroupName) (Groups metricsGroupList)
      = Some (makeAPIGroup ''v1beta1'' [''v1beta2'', ''v1beta1''])"
    by (simp add: metricsGroupList_def makeAPIGroup_def cmint_SchemeGroupVersion_def)
  have none: "find (\<lambda>g. Name g = GroupName) (Groups otherGroupList) = None"
    by (simp add: otherGroupList_def GroupName_def)
  have m1: "True \<longleftrightarrow>
      answers ?stale (invalidateCalls ?stale) (serverGroupsCalls ?stale) = Inl ErrCacheEmpty \<or>
      (\<exists>groups. answers ?stale (invalidateCalls ?stale) (serverGroupsCalls ?stale) = Inr groups \<and>
         GroupName \<notin> Name ` set (Groups groups))"
    using absent by (simp add: staleClient_def)
  have m2: "True \<longleftrightarrow>
      answers ?absent (invalidateCalls ?absent) (serverGroupsCalls ?absent) = Inl ErrCacheEmpty \<or>
      (\<exists>groups. answers ?absent (invalidateCalls ?absent) (serverGroupsCalls ?absent) = Inr groups \<and>
         GroupName \<notin> Name ` set (Groups groups))"
    using absent by (simp add: steadyClient_def)
  have m3: "False \<longleftrightarrow>
      answers ?down (invalidateCalls ?down) (serverGroupsCalls ?down) = Inl ErrCacheEmpty \<or>
      (\<exists>groups. answers ?down (invalidateCalls ?down) (serverGroupsCalls ?down) = Inr groups \<and>
         GroupName \<notin> Name ` set (Groups groups))"
    by (simp add: steadyClient_def)
  from versions_retries_once [OF surjective_pairing refl refl m1]
  have w1: "fst (APIVersionsFromDiscovery_Versions ?stale)
       = (Some (makeAPIGroup ''v1beta1'' [''v1beta2'', ''v1beta1'']), None) \<and>
     invalidateCalls (snd (APIVersionsFromDiscovery_Versions ?stale)) = 1 \<and>
     serverGroupsCalls (snd (APIVersionsFromDiscovery_Versions ?stale)) = 2"
    using found by (simp add: staleClient_def)
  from versions_retries_once [OF surjective_pairing refl refl m2]
  have w2: "fst (APIVersionsFromDiscovery_Versions ?absent)
       = (None, Some NoMetricsAPIGroupRegistered) \<and>
     invalidateCalls (snd (APIVersionsFromDiscovery_Versions ?absent)) = 1 \<and>
     serverGroupsCalls (snd (APIVersionsFromDiscovery_Versions ?absent)) = 2"
    using none by (simp add: steadyClient_def)
  from versions_retries_once [OF surjective_pairing refl refl m3]
  have w3: "fst (APIVersionsFromDiscovery_Versions ?down)
       = (None, Some (Err ''connection refused'')) \<and>
     invalidateCalls (snd (APIVersionsFromDiscovery_Versions ?down)) = 0 \<and>
     serverGroupsCalls (snd (APIVersionsFromDiscovery_Versions ?down)) = 1"
    by (simp add: steadyClient_def)
  from w1 w2 w3 show ?thesis by simp
qed

end
